theory Spec2Isabelle
  imports Main "HOL-Library.Signed_Division"
begin

section \<open>Machine integers\<close>

text \<open>
  Go's \<open>int32\<close> and \<open>int64\<close> are modelled as \<open>int\<close> with the two's-complement
  wrap-around written out at every arithmetic operation of the source. Go's \<open>/\<close> and
  \<open>%\<close> truncate towards zero: they are \<open>sdiv\<close> and \<open>smod\<close>.
\<close>

definition i32 :: "int \<Rightarrow> int" where
  "i32 v = (v + 2147483648) mod 4294967296 - 2147483648"

definition i64 :: "int \<Rightarrow> int" where
  "i64 v = (v + 9223372036854775808) mod 18446744073709551616 - 9223372036854775808"

definition is_i32 :: "int \<Rightarrow> bool" where
  "is_i32 v \<longleftrightarrow> - 2147483648 \<le> v \<and> v < 2147483648"

section \<open>Data model\<close>

datatype error = IndexOutOfRange | NegativeLength

text \<open>
  Modelled from the spec: \<open>cell.go\<close> (the type \<open>Cell\<close> with \<open>newCell\<close>, \<open>live\<close>,
  \<open>clone\<close>, and the type \<open>Delta\<close>) is not among the sources. \<open>env.go\<close> reads the
  fields \<open>idx\<close>, \<open>X\<close> and \<open>Y\<close>; the spec gives a cell an alive/dead flag and opaque
  organism state, says that a clone is a value copy, and that the grid is empty
  before the initial population is introduced. The organism state is the type
  parameter \<open>'o\<close>; the state of a new cell of a given genome size is the parameter
  \<open>mk\<close> of \<open>newCell\<close>.
\<close>

record 'o Cell =
  idx :: int
  X :: int
  Y :: int
  alive :: bool
  organism :: 'o

definition newCell :: "(int \<Rightarrow> 'o) \<Rightarrow> int \<Rightarrow> int \<Rightarrow> int \<Rightarrow> int \<Rightarrow> 'o Cell" where
  "newCell mk i x y genomeSize =
     \<lparr>idx = i, X = x, Y = y, alive = False, organism = mk genomeSize\<rparr>"

definition live :: "'o Cell \<Rightarrow> bool" where
  "live c = alive c"

definition clone :: "'o Cell \<Rightarrow> 'o Cell" where
  "clone c = c"

record 'o Delta =
  Cells :: "'o Cell list"

record Config =
  InflowFrequency :: int
  ViableCellGeneration :: int
  FailedKillPenalty :: int
  SeedLiveCells :: bool

definition defaultConfig :: Config where
  "defaultConfig =
     \<lparr>InflowFrequency = 10, ViableCellGeneration = 3, FailedKillPenalty = 3,
      SeedLiveCells = False\<rparr>"

text \<open>
  The fields of \<open>Env\<close> that hold data. The mutex is not a field of the model: every
  operation below runs as one atomic step, which is what the lock gives the
  operations that hold it. The channels \<open>run\<close> and \<open>nextCellID\<close> belong to the
  scheduler state further down. The RNG slot is not a field either: each sampler
  takes the RNG of its context as an argument.
\<close>

record 'o Env =
  Width :: int
  Height :: int
  GenomeSize :: int
  Seed :: int
  initPop :: int
  config :: Config
  cells :: "'o Cell list"
  cellsBuf :: "int list"
  liveCells :: "int \<rightharpoonup> bool"

text \<open>
  The RNG interface of \<open>rng.go\<close> (not among the sources) is taken as a parameter:
  the two draws \<open>env.go\<close> calls, each a function of its bound.
\<close>

record RNG =
  Intn :: "int \<Rightarrow> int"
  Int31n :: "int \<Rightarrow> int"

definition DIR_LEFT :: int where "DIR_LEFT = 0"
definition DIR_RIGHT :: int where "DIR_RIGHT = 1"
definition DIR_UP :: int where "DIR_UP = 2"
definition DIR_DOWN :: int where "DIR_DOWN = 3"

section \<open>Construction\<close>

text \<open>
  \<open>NewEnv\<close>: \<open>make\<close> panics on a negative length; \<open>now\<close> is the reading of the clock
  that replaces a seed below 1.
\<close>

definition NewEnv ::
  "(int \<Rightarrow> 'o) \<Rightarrow> int \<Rightarrow> int \<Rightarrow> int \<Rightarrow> int \<Rightarrow> int \<Rightarrow> int \<Rightarrow> error + 'o Env" where
  "NewEnv mk now width height genomeSize pop seed =
     (let n = i32 (width * height) in
      if n < 0 then Inl NegativeLength
      else Inr \<lparr>Width = width, Height = height, GenomeSize = genomeSize,
                Seed = (if seed < 1 then now else seed),
                initPop = pop,
                config = defaultConfig,
                cells = map (\<lambda>i. let k = i32 (int i) in
                               newCell mk k (i32 (k smod width)) (i32 (k sdiv width)) genomeSize)
                          [0 ..< nat n],
                cellsBuf = replicate (nat n) 0,
                liveCells = Map.empty\<rparr>)"

definition GetConfig :: "'o Env \<Rightarrow> Config" where
  "GetConfig e = config e"

definition SetConfig :: "'o Env \<Rightarrow> Config \<Rightarrow> 'o Env" where
  "SetConfig e c = e\<lparr>config := c\<rparr>"

section \<open>The authoritative store\<close>

text \<open>
  The loop of \<open>applyDelta\<close> over \<open>dt.Cells\<close>. The membership update comes first, then
  the indexed store into \<open>cells\<close>, which panics out of range.
\<close>

fun applyCells :: "'o Env \<Rightarrow> 'o Cell list \<Rightarrow> error + 'o Env" where
  "applyCells e [] = Inr e"
| "applyCells e (c # cs) =
     (let e1 = (if live c then e\<lparr>liveCells := (liveCells e)(idx c \<mapsto> True)\<rparr>
                else e\<lparr>liveCells := (liveCells e)(idx c := None)\<rparr>)
      in if 0 \<le> idx c \<and> idx c < int (length (cells e1))
         then applyCells (e1\<lparr>cells := (cells e1)[nat (idx c) := clone c]\<rparr>) cs
         else Inl IndexOutOfRange)"

definition applyDelta :: "'o Env \<Rightarrow> 'o Delta \<Rightarrow> error + 'o Env" where
  "applyDelta e dt = applyCells e (Cells dt)"

definition GetCell :: "'o Env \<Rightarrow> int \<Rightarrow> int \<Rightarrow> error + 'o Cell" where
  "GetCell e x y =
     (let k = i32 (x + i32 (Width e * y)) in
      if 0 \<le> k \<and> k < int (length (cells e)) then Inr (clone (cells e ! nat k))
      else Inl IndexOutOfRange)"

section \<open>Grid topology\<close>

text \<open>The \<open>switch\<close> of \<open>getNeighbor\<close>: the coordinates handed to \<open>GetCell\<close>.\<close>

definition neighborXY :: "'o Env \<Rightarrow> 'o Cell \<Rightarrow> int \<Rightarrow> int \<times> int" where
  "neighborXY e c dir =
     (let x = X c; y = Y c in
      if dir = DIR_LEFT then
        (if x = 0 then (i32 (Width e - 1), y) else (i32 (x - 1), y))
      else if dir = DIR_RIGHT then
        (if x = i32 (Width e - 1) then (0, y) else (i32 (x + 1), y))
      else if dir = DIR_UP then
        (if y = 0 then (x, i32 (Height e - 1)) else (x, i32 (y - 1)))
      else if dir = DIR_DOWN then
        (if y = i32 (Height e - 1) then (x, 0) else (x, i32 (y + 1)))
      else (x, y))"

definition getNeighbor :: "'o Env \<Rightarrow> 'o Cell \<Rightarrow> int \<Rightarrow> error + 'o Cell" where
  "getNeighbor e c dir = (case neighborXY e c dir of (x, y) \<Rightarrow> GetCell e x y)"

section \<open>Random sampling\<close>

definition getRandomCell :: "'o Env \<Rightarrow> RNG \<Rightarrow> error + 'o Cell" where
  "getRandomCell e rand =
     (let x = Int31n rand (Width e); y = Int31n rand (Height e) in GetCell e x y)"

text \<open>
  The enumeration loops write the candidates into the scratch buffer from position
  \<open>i\<close> on; a write past the end of the buffer panics. \<open>fillBuf\<close> is the loop of
  \<open>getRandomLiveCell\<close> over the keys, \<open>fillDead\<close> the loop of \<open>getRandomDeadCell\<close>
  over the cells.
\<close>

fun fillBuf :: "int list \<Rightarrow> nat \<Rightarrow> int list \<Rightarrow> error + (int list \<times> nat)" where
  "fillBuf buf i [] = Inr (buf, i)"
| "fillBuf buf i (k # ks) =
     (if i < length buf then fillBuf (buf[i := k]) (Suc i) ks else Inl IndexOutOfRange)"

fun fillDead ::
  "(int \<rightharpoonup> bool) \<Rightarrow> int list \<Rightarrow> nat \<Rightarrow> 'o Cell list \<Rightarrow> error + (int list \<times> nat)" where
  "fillDead lv buf i [] = Inr (buf, i)"
| "fillDead lv buf i (c # cs) =
     (if lv (idx c) = None then
        (if i < length buf then fillDead lv (buf[i := idx c]) (Suc i) cs
         else Inl IndexOutOfRange)
      else fillDead lv buf i cs)"

text \<open>
  The tail both samplers share: \<open>nil\<close> when nothing was enumerated, else the cell at
  the buffered index the RNG selects. Both indexed reads panic out of range.
\<close>

definition pickCell ::
  "'o Env \<Rightarrow> RNG \<Rightarrow> int list \<Rightarrow> nat \<Rightarrow> error + ('o Cell option \<times> 'o Env)" where
  "pickCell e rand buf i =
     (let e1 = e\<lparr>cellsBuf := buf\<rparr> in
      if i = 0 then Inr (None, e1)
      else
        let r = Intn rand (int i) in
        if 0 \<le> r \<and> r < int (length buf) then
          (let c = buf ! nat r in
           if 0 \<le> c \<and> c < int (length (cells e)) then
             Inr (Some (clone (cells e ! nat c)), e1)
           else Inl IndexOutOfRange)
        else Inl IndexOutOfRange)"

text \<open>
  Go visits the keys of a map in an unspecified order: \<open>ks\<close> is the order of this
  visit, a list of the keys of \<open>liveCells\<close> without repetition.
\<close>

definition getRandomLiveCell ::
  "'o Env \<Rightarrow> int list \<Rightarrow> RNG \<Rightarrow> error + ('o Cell option \<times> 'o Env)" where
  "getRandomLiveCell e ks rand =
     (case fillBuf (cellsBuf e) 0 ks of
        Inl err \<Rightarrow> Inl err
      | Inr (buf, i) \<Rightarrow> pickCell e rand buf i)"

definition getRandomDeadCell ::
  "'o Env \<Rightarrow> RNG \<Rightarrow> error + ('o Cell option \<times> 'o Env)" where
  "getRandomDeadCell e rand =
     (case fillDead (liveCells e) (cellsBuf e) 0 (cells e) of
        Inl err \<Rightarrow> Inl err
      | Inr (buf, i) \<Rightarrow> pickCell e rand buf i)"

section \<open>The store invariant and the inputs of the examples\<close>

text \<open>
  The set the spec writes \<open>{ c.index : cells[c.index].alive }\<close>, and the invariant:
  the keys of \<open>liveCells\<close> are that set, and the cell stored at an index carries it.
\<close>

definition aliveIndices :: "'o Env \<Rightarrow> int set" where
  "aliveIndices e = {k. 0 \<le> k \<and> k < int (length (cells e)) \<and> live (cells e ! nat k)}"

definition storeInv :: "'o Env \<Rightarrow> bool" where
  "storeInv e \<longleftrightarrow>
     dom (liveCells e) = aliveIndices e \<and>
     (\<forall>j < length (cells e). idx (cells e ! j) = int j)"

definition noOrganism :: "int \<Rightarrow> unit" where
  "noOrganism g = ()"


definition env2 :: "unit Env" where
  "env2 = projr (NewEnv noOrganism 0 2 2 1 0 1)"

definition liveCell1 :: "unit Cell" where
  "liveCell1 = \<lparr>idx = 1, X = 1, Y = 0, alive = True, organism = ()\<rparr>"

definition env2a :: "unit Env" where
  "env2a = projr (applyDelta env2 \<lparr>Cells = [liveCell1]\<rparr>)"

section \<open>The scheduler: Run, process and Stop\<close>

text \<open>
  The goroutines of \<open>Run\<close> are modelled by interleaving. The state holds the
  environment, the place where \<open>Run\<close> stands, the place where each worker (a goroutine
  running \<open>process\<close>) stands, the number of goroutines started by
  \<open>go func() { inflow <- true }()\<close> that are still blocked in their send, and the
  channels. An action is one atomic step of one goroutine; a send on an unbuffered
  channel is one step of the sender and the receiver together. The samplers and
  \<open>applyDelta\<close> are each one step: they hold the lock of the store. The goroutine that
  feeds \<open>nextCellID\<close> touches none of these channels and is left out.

  The calls \<open>c.seed(ctx)\<close> and \<open>c.exec(ctx)\<close> belong to \<open>cell.go\<close> and \<open>vm.go\<close>, which are
  not among the sources: a worker that made the call stands at \<open>WSeed c\<close> or
  \<open>WExecCell c\<close>, and the Delta the call returns is part of the action that resumes it.
\<close>

datatype 'o wpc =
    WSelect
  | WInflow
  | WSeed "'o Cell"
  | WExec
  | WExecCell "'o Cell"
  | WSend "'o Delta"
  | WDone

datatype 'o cpc =
    CSeed
  | CSelect
  | CTickInflow
  | CTickExec
  | CForward "'o Delta"
  | CWait
  | CCloseDeltas
  | CCloseDts
  | CCloseInflow
  | CReturned

datatype who = Coordinator | Worker nat | Started

datatype crash = SendOnClosed who | CloseOfClosed | Fault error | BadTicker

text \<open>
  \<open>exec\<close>, \<open>inflow\<close> and \<open>run\<close> are unbuffered: only whether they are closed is state.
  \<open>dts\<close> is the buffer of the collection channel, of capacity \<open>processN\<close>; \<open>deltas\<close> is
  the sequence of values the output sink has received; \<open>tickReady\<close> is the one-slot
  buffer of \<open>ticker.C\<close>. \<open>sent\<close> and \<open>applied\<close> are history variables, read by no step:
  every Delta a worker has sent on \<open>dts\<close>, and every Delta \<open>applyDelta\<close> has returned
  from, in order. A crashed program takes no further step.
\<close>

record 'o sys =
  env :: "'o Env"
  processN :: nat
  tickPeriod :: int
  coord :: "'o cpc"
  inflowTick :: int
  workers :: "'o wpc list"
  pending :: nat
  tickReady :: bool
  runClosed :: bool
  execClosed :: bool
  inflowClosed :: bool
  dtsClosed :: bool
  deltasClosed :: bool
  dts :: "'o Delta list"
  deltas :: "'o Delta list"
  sent :: "'o Delta list"
  applied :: "'o Delta list"
  crash :: "crash option"

text \<open>
  The state after \<open>Run\<close> has made its channels and started its workers, each of which
  reaches its \<open>select\<close>. \<open>make\<close> panics on a negative capacity.
\<close>

definition Run_start :: "'o Env \<Rightarrow> int \<Rightarrow> int \<Rightarrow> error + 'o sys" where
  "Run_start e n tick =
     (if n < 0 then Inl NegativeLength
      else Inr \<lparr>env = e, processN = nat n, tickPeriod = tick, coord = CSeed,
                inflowTick = 0, workers = replicate (nat n) WSelect, pending = 0,
                tickReady = False, runClosed = False, execClosed = False,
                inflowClosed = False, dtsClosed = False, deltasClosed = False,
                dts = [], deltas = [], sent = [], applied = [], crash = None\<rparr>)"

datatype 'o action =
    Stop
  | SetCfg Config
  | Tick
  | SeedSend nat
  | SeedDone
  | SelRun
  | SelTick
  | TickInflow nat
  | TickExec nat
  | SelDelta
  | Forward
  | WaitReturn
  | CloseDeltas
  | CloseDts
  | CloseInflow
  | PendingSend nat
  | PendingPanic
  | WClosed nat
  | WSampleInflow nat RNG
  | WSeedRet nat "'o Delta"
  | WSampleExec nat "int list" RNG
  | WExecRet nat "'o Delta"
  | WSendDelta nat

definition atW :: "nat \<Rightarrow> 'o wpc \<Rightarrow> 'o sys \<Rightarrow> bool" where
  "atW i w s \<longleftrightarrow> i < length (workers s) \<and> workers s ! i = w"

definition setW :: "nat \<Rightarrow> 'o wpc \<Rightarrow> 'o sys \<Rightarrow> 'o sys" where
  "setW i w s = s\<lparr>workers := (workers s)[i := w]\<rparr>"

definition crashWith :: "crash \<Rightarrow> 'o sys \<Rightarrow> 'o sys option" where
  "crashWith c s = Some (s\<lparr>crash := Some c\<rparr>)"

definition allDone :: "'o wpc list \<Rightarrow> bool" where
  "allDone ws = list_all (\<lambda>w. w = WDone) ws"

text \<open>The ticker exists from \<open>time.NewTicker\<close> until the deferred \<open>ticker.Stop()\<close>.\<close>

fun tickerRunning :: "'o cpc \<Rightarrow> bool" where
  "tickerRunning CSelect = True"
| "tickerRunning CTickInflow = True"
| "tickerRunning CTickExec = True"
| "tickerRunning (CForward dt) = True"
| "tickerRunning CWait = True"
| "tickerRunning pc = False"

text \<open>
  The steps, one equation per action; \<open>None\<close> means the action cannot happen in the
  state (the goroutine is elsewhere, or blocked).

  \<^item> \<open>Stop\<close>: \<open>close(e.run)\<close>; closing a closed channel panics. \<open>SetCfg\<close>: \<open>SetConfig\<close>
    by the caller. \<open>Tick\<close>: the ticker puts a tick into \<open>ticker.C\<close>, or drops it when
    the slot is taken.
  \<^item> \<open>SeedSend i\<close>: \<open>inflow <- true\<close> of the loop \<open>for e.initPop > 0\<close>, received by
    worker \<open>i\<close>, then \<open>e.initPop--\<close>. \<open>SeedDone\<close>: the loop ends; \<open>time.NewTicker\<close>
    (which panics unless the period is positive) and
    \<open>inflowTick := e.GetConfig().InflowFrequency\<close>.
  \<^item> \<open>SelRun\<close>, \<open>SelTick\<close>, \<open>SelDelta\<close>: the three cases of the \<open>select\<close> of the main
    loop, each possible when its channel is ready. \<open>SelRun\<close>: \<open>close(exec)\<close> and
    \<open>running = false\<close>, so that \<open>Run\<close> goes on to \<open>wg.Wait()\<close>. \<open>SelTick\<close>:
    \<open>inflowTick--\<close> and the test \<open>inflowTick == 0\<close>. \<open>TickInflow i\<close>: \<open>inflow <- true\<close>
    received by worker \<open>i\<close>, then the countdown is reloaded. \<open>TickExec i\<close>:
    \<open>exec <- true\<close> received by worker \<open>i\<close>. \<open>SelDelta\<close>: \<open>dt := <-dts\<close> and
    \<open>e.applyDelta(dt)\<close>. \<open>Forward\<close>: \<open>deltas <- dt\<close>.
  \<^item> \<open>WaitReturn\<close>: \<open>wg.Wait()\<close> returns once every worker has returned; the deferred
    calls follow in the reverse order of their \<open>defer\<close> statements: \<open>ticker.Stop()\<close>,
    then \<open>CloseDeltas\<close>, \<open>CloseDts\<close>, \<open>CloseInflow\<close>.
  \<^item> \<open>PendingSend i\<close>: the send of a started goroutine is received by worker \<open>i\<close>.
    \<open>PendingPanic\<close>: a started goroutine is in its send and \<open>inflow\<close> is closed.
  \<^item> \<open>WClosed i\<close>: worker \<open>i\<close> receives from the closed \<open>exec\<close> and returns.
    \<open>WSampleInflow i rand\<close>: the body of \<open>case <-inflow\<close> up to the call of \<open>seed\<close>.
    \<open>WSampleExec i ks rand\<close>: the body of the \<open>exec\<close> case up to the call of \<open>exec\<close>, or
    the \<open>go\<close> statement; \<open>ks\<close> is the order in which the map is visited.
    \<open>WSeedRet i d\<close>, \<open>WExecRet i d\<close>: the call returns \<open>d\<close>. \<open>WSendDelta i\<close>:
    \<open>dts <- d\<close>, possible while the buffer has room.
\<close>

fun act :: "'o action \<Rightarrow> 'o sys \<Rightarrow> 'o sys option" where
  "act Stop s =
     (if runClosed s then crashWith CloseOfClosed s else Some (s\<lparr>runClosed := True\<rparr>))"
| "act (SetCfg c) s = Some (s\<lparr>env := SetConfig (env s) c\<rparr>)"
| "act Tick s =
     (if tickerRunning (coord s) then Some (s\<lparr>tickReady := True\<rparr>) else None)"
| "act (SeedSend i) s =
     (if coord s = CSeed \<and> 0 < initPop (env s) then
        (if inflowClosed s then crashWith (SendOnClosed Coordinator) s
         else if atW i WSelect s then
           Some (setW i WInflow (s\<lparr>env := (env s)\<lparr>initPop := i32 (initPop (env s) - 1)\<rparr>\<rparr>))
         else None)
      else None)"
| "act SeedDone s =
     (if coord s = CSeed \<and> \<not> 0 < initPop (env s) then
        (if tickPeriod s \<le> 0 then crashWith BadTicker s
         else Some (s\<lparr>coord := CSelect,
                       inflowTick := InflowFrequency (GetConfig (env s))\<rparr>))
      else None)"
| "act SelRun s =
     (if coord s = CSelect \<and> runClosed s then
        (if execClosed s then crashWith CloseOfClosed s
         else Some (s\<lparr>execClosed := True, coord := CWait\<rparr>))
      else None)"
| "act SelTick s =
     (if coord s = CSelect \<and> tickReady s then
        (let t = i64 (inflowTick s - 1) in
         Some (s\<lparr>tickReady := False, inflowTick := t,
                  coord := (if t = 0 then CTickInflow else CTickExec)\<rparr>))
      else None)"
| "act (TickInflow i) s =
     (if coord s = CTickInflow then
        (if inflowClosed s then crashWith (SendOnClosed Coordinator) s
         else if atW i WSelect s then
           Some (setW i WInflow
                  (s\<lparr>inflowTick := InflowFrequency (GetConfig (env s)), coord := CTickExec\<rparr>))
         else None)
      else None)"
| "act (TickExec i) s =
     (if coord s = CTickExec then
        (if execClosed s then crashWith (SendOnClosed Coordinator) s
         else if atW i WSelect s then Some (setW i WExec (s\<lparr>coord := CSelect\<rparr>))
         else None)
      else None)"
| "act SelDelta s =
     (if coord s = CSelect then
        (case dts s of
           [] \<Rightarrow> None
         | dt # rest \<Rightarrow>
             (case applyDelta (env s) dt of
                Inl err \<Rightarrow> crashWith (Fault err) s
              | Inr e1 \<Rightarrow>
                  Some (s\<lparr>env := e1, dts := rest, applied := applied s @ [dt],
                           coord := CForward dt\<rparr>)))
      else None)"
| "act Forward s =
     (case coord s of
        CForward dt \<Rightarrow>
          (if deltasClosed s then crashWith (SendOnClosed Coordinator) s
           else Some (s\<lparr>deltas := deltas s @ [dt], coord := CSelect\<rparr>))
      | _ \<Rightarrow> None)"
| "act WaitReturn s =
     (if coord s = CWait \<and> allDone (workers s) then Some (s\<lparr>coord := CCloseDeltas\<rparr>)
      else None)"
| "act CloseDeltas s =
     (if coord s = CCloseDeltas then
        (if deltasClosed s then crashWith CloseOfClosed s
         else Some (s\<lparr>deltasClosed := True, coord := CCloseDts\<rparr>))
      else None)"
| "act CloseDts s =
     (if coord s = CCloseDts then
        (if dtsClosed s then crashWith CloseOfClosed s
         else Some (s\<lparr>dtsClosed := True, coord := CCloseInflow\<rparr>))
      else None)"
| "act CloseInflow s =
     (if coord s = CCloseInflow then
        (if inflowClosed s then crashWith CloseOfClosed s
         else Some (s\<lparr>inflowClosed := True, coord := CReturned\<rparr>))
      else None)"
| "act (PendingSend i) s =
     (if 0 < pending s \<and> \<not> inflowClosed s \<and> atW i WSelect s then
        Some (setW i WInflow (s\<lparr>pending := pending s - 1\<rparr>))
      else None)"
| "act PendingPanic s =
     (if 0 < pending s \<and> inflowClosed s then crashWith (SendOnClosed Started) s else None)"
| "act (WClosed i) s =
     (if atW i WSelect s \<and> execClosed s then Some (setW i WDone s) else None)"
| "act (WSampleInflow i rand) s =
     (if atW i WInflow s then
        (if \<not> SeedLiveCells (GetConfig (env s)) then
           (case getRandomDeadCell (env s) rand of
              Inl err \<Rightarrow> crashWith (Fault err) s
            | Inr (None, e1) \<Rightarrow> Some (setW i WSelect (s\<lparr>env := e1\<rparr>))
            | Inr (Some c, e1) \<Rightarrow> Some (setW i (WSeed c) (s\<lparr>env := e1\<rparr>)))
         else
           (case getRandomCell (env s) rand of
              Inl err \<Rightarrow> crashWith (Fault err) s
            | Inr c \<Rightarrow> Some (setW i (WSeed c) s)))
      else None)"
| "act (WSeedRet i d) s =
     (if i < length (workers s) then
        (case workers s ! i of
           WSeed c \<Rightarrow> Some (setW i (WSend d) s)
         | _ \<Rightarrow> None)
      else None)"
| "act (WSampleExec i ks rand) s =
     (if atW i WExec s \<and> distinct ks \<and> set ks = dom (liveCells (env s)) then
        (case getRandomLiveCell (env s) ks rand of
           Inl err \<Rightarrow> crashWith (Fault err) s
         | Inr (Some c, e1) \<Rightarrow> Some (setW i (WExecCell c) (s\<lparr>env := e1\<rparr>))
         | Inr (None, e1) \<Rightarrow>
             Some (setW i WSelect (s\<lparr>env := e1, pending := Suc (pending s)\<rparr>)))
      else None)"
| "act (WExecRet i d) s =
     (if i < length (workers s) then
        (case workers s ! i of
           WExecCell c \<Rightarrow> Some (setW i (WSend d) s)
         | _ \<Rightarrow> None)
      else None)"
| "act (WSendDelta i) s =
     (if i < length (workers s) then
        (case workers s ! i of
           WSend d \<Rightarrow>
             (if dtsClosed s then crashWith (SendOnClosed (Worker i)) s
              else if length (dts s) < processN s then
                Some (setW i WSelect (s\<lparr>dts := dts s @ [d], sent := sent s @ [d]\<rparr>))
              else None)
         | _ \<Rightarrow> None)
      else None)"

definition step :: "'o action \<Rightarrow> 'o sys \<Rightarrow> 'o sys option" where
  "step a s = (if crash s \<noteq> None then None else act a s)"

fun run_actions :: "'o action list \<Rightarrow> 'o sys \<Rightarrow> 'o sys option" where
  "run_actions [] s = Some s"
| "run_actions (a # as) s =
     (case step a s of None \<Rightarrow> None | Some s1 \<Rightarrow> run_actions as s1)"

text \<open>The Deltas applied one after the other, as the main loop applies them.\<close>

fun applyDeltas :: "'o Env \<Rightarrow> 'o Delta list \<Rightarrow> error + 'o Env" where
  "applyDeltas e [] = Inr e"
| "applyDeltas e (dt # rest) =
     (case applyDelta e dt of Inl err \<Rightarrow> Inl err | Inr e1 \<Rightarrow> applyDeltas e1 rest)"

text \<open>The Delta \<open>Run\<close> has applied and not yet forwarded.\<close>

fun inHand :: "'o cpc \<Rightarrow> 'o Delta list" where
  "inHand (CForward dt) = [dt]"
| "inHand pc = []"

section \<open>Properties of the store, the topology and the samplers\<close>

lemma i32_id: "is_i32 v \<Longrightarrow> i32 v = v"
  by (simp add: i32_def is_i32_def)

lemma i64_id: "- 9223372036854775808 \<le> v \<Longrightarrow> v < 9223372036854775808 \<Longrightarrow> i64 v = v"
  by (simp add: i64_def)

lemma sdiv_nonneg: "0 \<le> a \<Longrightarrow> 0 < b \<Longrightarrow> a sdiv b = a div (b::int)"
  by (simp add: signed_divide_int_def sgn_if)

lemma smod_nonneg: "0 \<le> a \<Longrightarrow> 0 < b \<Longrightarrow> a smod b = a mod (b::int)"
  by (cases "a = 0") (simp_all add: signed_modulo_int_def sgn_if)

lemma applyCells_frame:
  "applyCells e cs = Inr e' \<Longrightarrow>
     Width e' = Width e \<and> Height e' = Height e \<and> GenomeSize e' = GenomeSize e \<and>
     Seed e' = Seed e \<and> initPop e' = initPop e \<and> config e' = config e \<and>
     cellsBuf e' = cellsBuf e \<and> length (cells e') = length (cells e)"
  by (induction cs arbitrary: e) (auto simp: Let_def split: if_splits)

lemma applyCells_untouched:
  "applyCells e cs = Inr e' \<Longrightarrow> k \<notin> idx ` set cs \<Longrightarrow>
     liveCells e' k = liveCells e k \<and> (0 \<le> k \<longrightarrow> cells e' ! nat k = cells e ! nat k)"
  by (induction cs arbitrary: e) (auto simp: Let_def split: if_splits)

lemma storeInv_step:
  assumes "storeInv e" "0 \<le> idx c" "idx c < int (length (cells e))"
  shows "storeInv (e\<lparr>liveCells := (if live c then (liveCells e)(idx c \<mapsto> True) else (liveCells e)(idx c := None)),
                    cells := (cells e)[nat (idx c) := clone c]\<rparr>)"
  using assms
  apply (simp add: storeInv_def aliveIndices_def clone_def nth_list_update)
  apply (auto simp: nth_list_update split: if_splits)
  done

lemma applyCells_storeInv:
  "storeInv e \<Longrightarrow> applyCells e cs = Inr e' \<Longrightarrow> storeInv e'"
proof (induction cs arbitrary: e)
  case Nil
  then show ?case by simp
next
  case (Cons c cs)
  from Cons.prems(2) have rng: "0 \<le> idx c" "idx c < int (length (cells e))"
    by (auto simp: Let_def split: if_splits)
  let ?e2 = "e\<lparr>liveCells := (if live c then (liveCells e)(idx c \<mapsto> True) else (liveCells e)(idx c := None)),
                    cells := (cells e)[nat (idx c) := clone c]\<rparr>"
  have "applyCells ?e2 cs = Inr e'"
    using Cons.prems(2) rng by (auto simp: Let_def split: if_splits)
  moreover have "storeInv ?e2" by (rule storeInv_step [OF Cons.prems(1) rng])
  ultimately show ?case by (rule Cons.IH [rotated])
qed

lemma NewEnv_storeInv: "NewEnv mk now w h g p s = Inr e \<Longrightarrow> storeInv e"
  by (auto simp: NewEnv_def Let_def storeInv_def aliveIndices_def newCell_def live_def
      i32_id is_i32_def i32_def split: if_splits)











lemma i32_small: "i32 4 = 4" "i32 0 = 0" "i32 1 = 1" "i32 2 = 2" "i32 3 = 3" "i32 (- 1) = - 1" "i32 5 = 5"
  by (simp_all add: i32_def)

lemma replicate4: "replicate 4 x = [x, x, x, x]"
  by (simp add: numeral_eq_Suc)

lemma NewEnv_env2: "NewEnv noOrganism 0 2 2 1 0 1 = Inr env2"
  by (simp add: env2_def NewEnv_def Let_def i32_small)

lemma upt4: "[0 ..< 4] = [0, 1, 2, Suc 2]"
  by (simp add: upt_rec numeral_eq_Suc)

lemma cells_env2:
  "cells env2 = [newCell noOrganism 0 0 0 1, newCell noOrganism 1 1 0 1,
                 newCell noOrganism 2 0 1 1, newCell noOrganism 3 1 1 1]"
  by (simp add: env2_def NewEnv_def Let_def i32_small upt4 signed_divide_int_def
      signed_modulo_int_def)

lemma env2_fields:
  "Width env2 = 2" "Height env2 = 2" "liveCells env2 = Map.empty"
  "cellsBuf env2 = [0, 0, 0, 0]" "config env2 = defaultConfig" "initPop env2 = 0"
  by (simp_all add: env2_def NewEnv_def Let_def i32_small replicate4)

lemma applyDelta_env2: "applyDelta env2 \<lparr>Cells = [liveCell1]\<rparr> = Inr env2a"
  by (simp add: env2a_def applyDelta_def Let_def cells_env2 liveCell1_def live_def)

lemma env2a_fields:
  "cells env2a = [newCell noOrganism 0 0 0 1, liveCell1,
                 newCell noOrganism 2 0 1 1, newCell noOrganism 3 1 1 1]"
  "liveCells env2a = [1 \<mapsto> True]" "cellsBuf env2a = [0, 0, 0, 0]"
  by (simp_all add: env2a_def applyDelta_def Let_def cells_env2 env2_fields liveCell1_def
      live_def clone_def)

lemma linear_index_bound:
  fixes w h x y :: int
  assumes "0 \<le> x" "x < w" "0 \<le> y" "y < h"
  shows "0 \<le> x + w * y \<and> x + w * y < w * h \<and> 0 \<le> w * y \<and> w * y < w * h"
proof -
  have w: "0 < w" using assms by simp
  have "w * y \<le> w * (h - 1)" using assms w by (intro mult_left_mono) simp_all
  then have "w * y \<le> w * h - w" by (simp add: algebra_simps)
  moreover have "0 \<le> w * y" using assms w by simp
  ultimately show ?thesis using assms by simp
qed

lemma GetCell_in_grid:
  assumes "is_i32 (Width e * Height e)" "int (length (cells e)) = Width e * Height e"
    and "0 \<le> x" "x < Width e" "0 \<le> y" "y < Height e"
  shows "GetCell e x y = Inr (clone (cells e ! nat (x + Width e * y)))"
proof -
  from linear_index_bound [OF assms(3-6)] have
    b: "0 \<le> x + Width e * y" "x + Width e * y < Width e * Height e"
       "0 \<le> Width e * y" "Width e * y < Width e * Height e"
    by simp_all
  have "is_i32 (Width e * y)" "is_i32 (x + Width e * y)"
    using b assms(1) by (simp_all add: is_i32_def)
  then have "i32 (x + i32 (Width e * y)) = x + Width e * y"
    by (simp add: i32_id)
  then show ?thesis using b assms(2) by (simp add: GetCell_def Let_def)
qed

text \<open>
  Claim C3. A freshly constructed environment satisfies the store invariant (the
  membership set is exactly the set of indices whose stored cell is alive, and every
  stored cell carries its own index), and every application of a Delta that returns
  preserves it.
\<close>

theorem applyDelta_preserves_storeInv:
  "(NewEnv mk now w h g p s = Inr e0 \<longrightarrow> storeInv e0) \<and>
   (storeInv e \<and> applyDelta e dt = Inr e' \<longrightarrow> storeInv e')"
  using NewEnv_storeInv [of mk now w h g p s e0] applyCells_storeInv [of e "Cells dt" e']
  by (simp add: applyDelta_def)

text \<open>
  The 2 x 2 environment and a Delta that makes cell 1 alive satisfy both hypotheses.
\<close>

theorem applyDelta_preserves_storeInv_witness:
  "NewEnv noOrganism 0 2 2 1 0 1 = Inr env2 \<and> storeInv env2 \<and>
   applyDelta env2 \<lparr>Cells = [liveCell1]\<rparr> = Inr env2a \<and> storeInv env2a \<and>
   dom (liveCells env2a) = {1} \<and> aliveIndices env2a = {1}"
proof -
  have a: "storeInv env2"
    by (rule applyDelta_preserves_storeInv [THEN conjunct1, THEN mp, OF NewEnv_env2])
  have b: "storeInv env2a"
    by (rule applyDelta_preserves_storeInv [THEN conjunct2, THEN mp, OF conjI, OF a applyDelta_env2])
  have c: "dom (liveCells env2a) = {1}" by (simp add: env2a_fields)
  then have "aliveIndices env2a = {1}" using b by (simp add: storeInv_def)
  with a b c show ?thesis using NewEnv_env2 applyDelta_env2 by simp
qed

text \<open>
  Claim C10. \<open>applyDelta\<close> changes only the entries at the indices of the cells of the
  Delta: at every other index the membership and the stored cell are as before, and
  the cell array keeps its length.
\<close>

theorem applyDelta_frame:
  assumes "applyDelta e dt = Inr e'" and "k \<notin> idx ` set (Cells dt)"
  shows "liveCells e' k = liveCells e k \<and>
         (0 \<le> k \<longrightarrow> cells e' ! nat k = cells e ! nat k) \<and>
         length (cells e') = length (cells e)"
  using applyCells_untouched [of e "Cells dt" e' k] applyCells_frame [of e "Cells dt" e'] assms
  by (simp add: applyDelta_def)

text \<open>
  Index 2 is not mentioned by the Delta and is unchanged; index 1 is mentioned and changes.
\<close>

theorem applyDelta_frame_witness:
  "applyDelta env2 \<lparr>Cells = [liveCell1]\<rparr> = Inr env2a \<and>
   2 \<notin> idx ` set (Cells \<lparr>Cells = [liveCell1]\<rparr>) \<and>
   liveCells env2a 2 = liveCells env2 2 \<and> cells env2a ! nat 2 = cells env2 ! nat 2 \<and>
   cells env2a ! nat 1 \<noteq> cells env2 ! nat 1"
proof -
  have m: "(2::int) \<notin> idx ` set (Cells \<lparr>Cells = [liveCell1]\<rparr>)"
    by (simp add: liveCell1_def)
  have "cells env2a ! nat 1 \<noteq> cells env2 ! nat 1"
    by (simp add: env2a_fields cells_env2 liveCell1_def newCell_def)
  then show ?thesis
    using applyDelta_frame [OF applyDelta_env2 m] applyDelta_env2 m by simp
qed




lemma neighborXY_cases:
  assumes w: "1 \<le> Width e" "is_i32 (Width e)" and h: "1 \<le> Height e" "is_i32 (Height e)"
    and x: "0 \<le> X c" "X c < Width e" and y: "0 \<le> Y c" "Y c < Height e"
  shows "neighborXY e c DIR_LEFT = (if X c = 0 then Width e - 1 else X c - 1, Y c)"
    and "neighborXY e c DIR_RIGHT = (if X c = Width e - 1 then 0 else X c + 1, Y c)"
    and "neighborXY e c DIR_UP = (X c, if Y c = 0 then Height e - 1 else Y c - 1)"
    and "neighborXY e c DIR_DOWN = (X c, if Y c = Height e - 1 then 0 else Y c + 1)"
proof -
  have i: "i32 (Width e - 1) = Width e - 1" "i32 (Height e - 1) = Height e - 1"
    "i32 (X c - 1) = X c - 1" "i32 (X c + 1) = X c + 1"
    "i32 (Y c - 1) = Y c - 1" "i32 (Y c + 1) = Y c + 1"
    using assms by (simp_all add: i32_id is_i32_def)
  show "neighborXY e c DIR_LEFT = (if X c = 0 then Width e - 1 else X c - 1, Y c)"
    and "neighborXY e c DIR_RIGHT = (if X c = Width e - 1 then 0 else X c + 1, Y c)"
    and "neighborXY e c DIR_UP = (X c, if Y c = 0 then Height e - 1 else Y c - 1)"
    and "neighborXY e c DIR_DOWN = (X c, if Y c = Height e - 1 then 0 else Y c + 1)"
    by (simp_all add: neighborXY_def Let_def i DIR_LEFT_def DIR_RIGHT_def DIR_UP_def DIR_DOWN_def)
qed

text \<open>
  Claim C8. For grid dimensions of at least 1 and a cell with in-grid coordinates, the
  coordinates \<open>getNeighbor\<close> computes in each of the four directions are in the grid:
  they wrap at the edge and otherwise move by one. When the cell array has
  \<open>Width * Height\<close> entries, \<open>getNeighbor\<close> returns a copy of the cell stored there.
\<close>

theorem getNeighbor_in_grid:
  assumes w: "1 \<le> Width e" "is_i32 (Width e)" and h: "1 \<le> Height e" "is_i32 (Height e)"
    and x: "0 \<le> X c" "X c < Width e" and y: "0 \<le> Y c" "Y c < Height e"
    and d: "dir \<in> {DIR_LEFT, DIR_RIGHT, DIR_UP, DIR_DOWN}"
  shows "\<exists>x' y'. neighborXY e c dir = (x', y') \<and>
           0 \<le> x' \<and> x' < Width e \<and> 0 \<le> y' \<and> y' < Height e \<and>
           x' = (if dir = DIR_LEFT then (if X c = 0 then Width e - 1 else X c - 1)
                 else if dir = DIR_RIGHT then (if X c = Width e - 1 then 0 else X c + 1)
                 else X c) \<and>
           y' = (if dir = DIR_UP then (if Y c = 0 then Height e - 1 else Y c - 1)
                 else if dir = DIR_DOWN then (if Y c = Height e - 1 then 0 else Y c + 1)
                 else Y c) \<and>
           (is_i32 (Width e * Height e) \<and> int (length (cells e)) = Width e * Height e \<longrightarrow>
              getNeighbor e c dir = Inr (clone (cells e ! nat (x' + Width e * y'))))"
proof -
  note n = neighborXY_cases [OF w h x y]
  have dirs: "DIR_LEFT \<noteq> DIR_RIGHT" "DIR_LEFT \<noteq> DIR_UP" "DIR_LEFT \<noteq> DIR_DOWN"
    "DIR_RIGHT \<noteq> DIR_UP" "DIR_RIGHT \<noteq> DIR_DOWN" "DIR_UP \<noteq> DIR_DOWN"
    by (simp_all add: DIR_LEFT_def DIR_RIGHT_def DIR_UP_def DIR_DOWN_def)
  obtain x' y' where xy: "neighborXY e c dir = (x', y')" by (cases "neighborXY e c dir")
  from d consider "dir = DIR_LEFT" | "dir = DIR_RIGHT" | "dir = DIR_UP" | "dir = DIR_DOWN"
    by blast
  then have vals:
    "x' = (if dir = DIR_LEFT then (if X c = 0 then Width e - 1 else X c - 1)
                 else if dir = DIR_RIGHT then (if X c = Width e - 1 then 0 else X c + 1)
                 else X c) \<and>
     y' = (if dir = DIR_UP then (if Y c = 0 then Height e - 1 else Y c - 1)
                 else if dir = DIR_DOWN then (if Y c = Height e - 1 then 0 else Y c + 1)
                 else Y c)"
  proof cases
    case 1
    then show ?thesis using xy n(1) dirs by simp
  next
    case 2
    then show ?thesis using xy n(2) dirs by simp
  next
    case 3
    then show ?thesis using xy n(3) dirs by simp
  next
    case 4
    then show ?thesis using xy n(4) dirs by simp
  qed
  have rng: "0 \<le> x'" "x' < Width e" "0 \<le> y'" "y' < Height e"
    using vals w(1) h(1) x y by (simp_all split: if_splits)
  have g: "getNeighbor e c dir = Inr (clone (cells e ! nat (x' + Width e * y')))"
    if "is_i32 (Width e * Height e)" "int (length (cells e)) = Width e * Height e"
    using GetCell_in_grid [OF that rng] xy by (simp add: getNeighbor_def)
  show ?thesis using xy vals rng g by blast
qed

text \<open>
  The left neighbour of the cell at (0, 0) of the 2 x 2 grid is the cell at (1, 0).
\<close>

theorem getNeighbor_in_grid_witness:
  "1 \<le> Width env2 \<and> is_i32 (Width env2) \<and> 1 \<le> Height env2 \<and> is_i32 (Height env2) \<and>
   0 \<le> X (newCell noOrganism 0 0 0 1) \<and> X (newCell noOrganism 0 0 0 1) < Width env2 \<and>
   0 \<le> Y (newCell noOrganism 0 0 0 1) \<and> Y (newCell noOrganism 0 0 0 1) < Height env2 \<and>
   DIR_LEFT \<in> {DIR_LEFT, DIR_RIGHT, DIR_UP, DIR_DOWN} \<and>
   neighborXY env2 (newCell noOrganism 0 0 0 1) DIR_LEFT = (1, 0) \<and>
   getNeighbor env2 (newCell noOrganism 0 0 0 1) DIR_LEFT = Inr (newCell noOrganism 1 1 0 1)"
proof -
  let ?c = "newCell noOrganism 0 0 0 1"
  have w: "1 \<le> Width env2" "is_i32 (Width env2)" and h: "1 \<le> Height env2" "is_i32 (Height env2)"
    by (simp_all add: env2_fields is_i32_def)
  have x: "0 \<le> X ?c" "X ?c < Width env2" and y: "0 \<le> Y ?c" "Y ?c < Height env2"
    by (simp_all add: env2_fields newCell_def)
  have d: "DIR_LEFT \<in> {DIR_LEFT, DIR_RIGHT, DIR_UP, DIR_DOWN}" by simp
  have g: "is_i32 (Width env2 * Height env2) \<and> int (length (cells env2)) = Width env2 * Height env2"
    by (simp add: env2_fields cells_env2 is_i32_def)
  from getNeighbor_in_grid [OF w h x y d] obtain x' y' where
    r: "neighborXY env2 ?c DIR_LEFT = (x', y')"
       "x' = (if DIR_LEFT = DIR_LEFT then (if X ?c = 0 then Width env2 - 1 else X ?c - 1)
                 else if DIR_LEFT = DIR_RIGHT then (if X ?c = Width env2 - 1 then 0 else X ?c + 1)
                 else X ?c)"
       "y' = (if DIR_LEFT = DIR_UP then (if Y ?c = 0 then Height env2 - 1 else Y ?c - 1)
                 else if DIR_LEFT = DIR_DOWN then (if Y ?c = Height env2 - 1 then 0 else Y ?c + 1)
                 else Y ?c)"
       "is_i32 (Width env2 * Height env2) \<and> int (length (cells env2)) = Width env2 * Height env2 \<longrightarrow>
              getNeighbor env2 ?c DIR_LEFT = Inr (clone (cells env2 ! nat (x' + Width env2 * y')))"
    by blast
  have x': "x' = 1" using r(2) by (simp add: env2_fields newCell_def)
  have y': "y' = 0" using r(3) by (simp add: env2_fields newCell_def DIR_LEFT_def DIR_UP_def DIR_DOWN_def)
  have "getNeighbor env2 ?c DIR_LEFT = Inr (clone (cells env2 ! nat (x' + Width env2 * y')))"
    using r(4) g by blast
  then have "getNeighbor env2 ?c DIR_LEFT = Inr (newCell noOrganism 1 1 0 1)"
    by (simp add: x' y' env2_fields cells_env2 clone_def)
  then have "neighborXY env2 ?c DIR_LEFT = (1, 0) \<and> getNeighbor env2 ?c DIR_LEFT = Inr (newCell noOrganism 1 1 0 1)"
    using r(1) x' y' by simp
  with w h x y d show ?thesis by blast
qed

text \<open>
  Claim C9 as stated fails: on the 2 x 2 grid the coordinates (3, 0) are outside the
  grid, and \<open>GetCell\<close> returns the cell with index 3 instead of faulting.
\<close>

theorem GetCell_out_of_range_counterexample:
  "NewEnv noOrganism 0 2 2 1 0 1 = Inr env2 \<and>
   \<not> (0 \<le> (3::int) \<and> 3 < Width env2 \<and> 0 \<le> (0::int) \<and> 0 < Height env2) \<and>
   GetCell env2 3 0 = Inr (newCell noOrganism 3 1 1 1)"
  using NewEnv_env2
  by (simp add: GetCell_def Let_def env2_fields cells_env2 i32_small clone_def)

lemma div_mod_in_grid:
  fixes w h k :: int
  assumes "1 \<le> w" "0 \<le> k" "k < w * h"
  shows "0 \<le> k mod w \<and> k mod w < w \<and> 0 \<le> k div w \<and> k div w < h"
proof -
  have w: "0 < w" using assms(1) by simp
  have "k div w < h"
  proof (rule ccontr)
    assume "\<not> k div w < h"
    then have "h \<le> k div w" by simp
    then have "w * h \<le> w * (k div w)" using w by (intro mult_left_mono) simp_all
    also have "\<dots> = k - k mod w" by (simp add: minus_mod_eq_mult_div)
    also have "\<dots> \<le> k" using w by simp
    finally show False using assms(3) by simp
  qed
  moreover have "0 \<le> k div w" using assms(2) w by (simp add: pos_imp_zdiv_nonneg_iff)
  ultimately show ?thesis using w by simp
qed

text \<open>
  Claim C9, amended. On a grid whose cell array has \<open>Width * Height\<close> entries,
  \<open>GetCell\<close> faults exactly when the linear index \<open>x + Width * y\<close>, computed in 32
  bits, is outside the array. When the linear index \<open>k\<close> is inside, the call returns a
  copy of the cell stored at \<open>k\<close>, the same cell as the in-grid coordinates
  \<open>(k mod Width, k div Width)\<close> give, whether or not \<open>(x, y)\<close> is in the grid.
\<close>

theorem GetCell_fault_iff:
  assumes grid: "1 \<le> Width e" "1 \<le> Height e" "is_i32 (Width e * Height e)"
    "int (length (cells e)) = Width e * Height e"
  shows "let k = i32 (x + i32 (Width e * y)) in
           (GetCell e x y = Inl IndexOutOfRange \<longleftrightarrow> k < 0 \<or> Width e * Height e \<le> k) \<and>
           (0 \<le> k \<and> k < Width e * Height e \<longrightarrow>
              GetCell e x y = Inr (clone (cells e ! nat k)) \<and>
              GetCell e x y = GetCell e (k mod Width e) (k div Width e))"
proof -
  define k where "k = i32 (x + i32 (Width e * y))"
  have a: "GetCell e x y = Inl IndexOutOfRange \<longleftrightarrow> k < 0 \<or> Width e * Height e \<le> k"
    using grid(4) by (auto simp: GetCell_def Let_def k_def)
  have b: "GetCell e x y = Inr (clone (cells e ! nat k)) \<and>
           GetCell e x y = GetCell e (k mod Width e) (k div Width e)"
    if k: "0 \<le> k" "k < Width e * Height e"
  proof -
    have g: "GetCell e x y = Inr (clone (cells e ! nat k))"
      using k grid(4) by (simp add: GetCell_def Let_def k_def)
    from div_mod_in_grid [OF grid(1) k] have
      r: "0 \<le> k mod Width e" "k mod Width e < Width e" "0 \<le> k div Width e" "k div Width e < Height e"
      by simp_all
    have "GetCell e (k mod Width e) (k div Width e) =
            Inr (clone (cells e ! nat (k mod Width e + Width e * (k div Width e))))"
      by (rule GetCell_in_grid [OF grid(3,4) r])
    also have "k mod Width e + Width e * (k div Width e) = k" by simp
    finally show ?thesis using g by simp
  qed
  show ?thesis unfolding Let_def k_def [symmetric] using a b by blast
qed

text \<open>
  On the 2 x 2 grid: (3, 0) aliases (1, 1); (0, 2) and (-1, 0) fault.
\<close>

theorem GetCell_fault_iff_witness:
  "1 \<le> Width env2 \<and> 1 \<le> Height env2 \<and> is_i32 (Width env2 * Height env2) \<and>
   int (length (cells env2)) = Width env2 * Height env2 \<and>
   GetCell env2 3 0 = GetCell env2 1 1 \<and> GetCell env2 0 2 = Inl IndexOutOfRange \<and>
   GetCell env2 (- 1) 0 = Inl IndexOutOfRange"
proof -
  have g: "1 \<le> Width env2" "1 \<le> Height env2" "is_i32 (Width env2 * Height env2)"
    "int (length (cells env2)) = Width env2 * Height env2"
    by (simp_all add: env2_fields cells_env2 is_i32_def)
  have k: "i32 (3 + i32 (Width env2 * 0)) = 3" by (simp add: i32_small)
  have m: "(3::int) mod Width env2 = 1" "(3::int) div Width env2 = 1"
    "(0::int) \<le> 3 \<and> 3 < Width env2 * Height env2"
    by (simp_all add: env2_fields)
  have "GetCell env2 3 0 = GetCell env2 1 1"
    using GetCell_fault_iff [OF g, of 3 0, unfolded Let_def k m] m(3) by blast
  moreover have "GetCell env2 0 2 = Inl IndexOutOfRange"
    using GetCell_fault_iff [OF g, of 0 2] by (simp add: i32_small Let_def env2_fields)
  moreover have "GetCell env2 (- 1) 0 = Inl IndexOutOfRange"
    using GetCell_fault_iff [OF g, of "- 1" 0] by (simp add: i32_small Let_def env2_fields)
  ultimately show ?thesis using g by simp
qed

end
